theory Spec2Isabelle
  imports Main "HOL-Library.Char_ord" "HOL-Library.List_Lexorder" "HOL-Library.Multiset"
begin

section \<open>The expression graph (core.ts)\<close>

subsection \<open>Data model\<close>

text \<open>
  The payload of a \<open>Value\<close> node (\<open>public readonly value: any\<close>). The literals the
  graph constructs are \<open>null\<close>, booleans, numbers and strings; numbers are modelled
  as integers (only integer literals occur below).
\<close>

datatype val = VNull | VBool bool | VNum int | VStr string

text \<open>
  An expression node. The first field of every constructor is the node's \<open>uuid\<close>
  (\<open>readonly uuid = Expr.counter++\<close>): it is what tells two instances apart, so
  "the identical instance" is equality of nodes including the uuid. The argument list of a
  \<open>FuncCall\<close> and the name of a \<open>VarRef\<close> never change after construction; the two
  mutable fields of \<open>Expr\<close> (\<open>lastEvaluated\<close>, \<open>_latestValue\<close>) live in the graph
  state below, keyed by uuid.
\<close>

datatype expr =
    Value nat val
  | VarRef nat string
  | FuncCall nat string "expr list"

fun uuid :: "expr \<Rightarrow> nat" where
  "uuid (Value u v) = u"
| "uuid (VarRef u n) = u"
| "uuid (FuncCall u f as) = u"

datatype error =
    CircularReferenceError string
  | InvalidRefError string
  | Error string

text \<open>\<open>class Units { num: string[]; den: string[] }\<close>; \<open>units_addr\<close> is the identity
  of the object (each \<open>new Units\<close> is a distinct instance).\<close>

record Units =
  units_addr :: nat
  num :: "string list"
  den :: "string list"

text \<open>\<open>class Var { name; value: Expr }\<close>, the mutable slot of a variable.\<close>

record Var =
  var_name :: string
  var_value :: expr

text \<open>
  The fields of the graph other than the function registry. \<open>counter\<close> is the static
  \<open>Expr.counter\<close>; \<open>lastEvaluated\<close> and \<open>cached\<close> hold, per uuid, the
  \<open>lastEvaluated\<close> and \<open>_latestValue\<close> fields of the expression objects;
  \<open>units_next\<close> is the next free identity for a \<open>Units\<close> object.
\<close>

record DAG_state =
  lastModified :: int
  NULL :: expr
  ZERO :: expr
  ONE :: expr
  TRUE :: expr
  FALSE :: expr
  vars :: "string \<rightharpoonup> Var"
  unitsMap :: "string \<rightharpoonup> Units"
  counter :: nat
  lastEvaluated :: "nat \<Rightarrow> int"
  cached :: "nat \<Rightarrow> expr"
  units_next :: nat

text \<open>
  \<open>FuncType = (dag: DAG, args: Value[]) => Value\<close>. A native function is handed the
  graph and the evaluated arguments. It returns a \<open>Value\<close> or throws, and it may have
  changed the graph on the way: it returns the fields as it left them (variables rebound,
  \<open>lastModified\<close> written, uuids drawn, ...) together with the functions it registered
  through \<open>dag.regFunc\<close>, in the order of the calls. What a native function cannot do
  here is read the registry or evaluate an expression of the graph.
\<close>

datatype FuncType =
  Native "DAG_state \<Rightarrow> expr list \<Rightarrow> (error + expr) \<times> DAG_state \<times> (string \<times> FuncType) list"

fun native :: "FuncType \<Rightarrow> DAG_state \<Rightarrow> expr list \<Rightarrow> (error + expr) \<times> DAG_state \<times> (string \<times> FuncType) list" where
  "native (Native fn) = fn"

text \<open>
  The graph: the fields above and the registry \<open>funcs\<close>. \<open>invoked\<close> is not a field of
  the source: it records every call \<open>func(this.dag, values)\<close> made by
  \<open>FuncCall.eval\<close>, in order, and no native function can write it.
\<close>

record DAG = DAG_state +
  funcs :: "string \<rightharpoonup> FuncType"
  invoked :: "(string \<times> expr list) list"

text \<open>\<open>new DAG()\<close> when \<open>Expr.counter\<close> is \<open>c\<close>: the field initialisers run in
  order, each \<open>new Value\<close> taking the next uuid. A new expression has
  \<open>lastEvaluated = -1\<close> and \<open>_latestValue = dag.ZERO\<close>.\<close>

definition new_DAG :: "nat \<Rightarrow> DAG" where
  "new_DAG c = \<lparr> lastModified = 0,
      NULL = Value c VNull,
      ZERO = Value (c + 1) (VNum 0),
      ONE = Value (c + 2) (VNum 1),
      TRUE = Value (c + 3) (VBool True),
      FALSE = Value (c + 4) (VBool False),
      vars = Map.empty, unitsMap = Map.empty,
      counter = c + 5,
      lastEvaluated = (\<lambda>u. - 1),
      cached = (\<lambda>u. Value (c + 1) (VNum 0)),
      units_next = 0,
      funcs = Map.empty,
      invoked = [] \<rparr>"

subsection \<open>Units\<close>

text \<open>
  \<open>newUnits(num, den)\<close>. \<open>Array.prototype.join\<close> is \<open>join\<close>; the default
  \<open>sort()\<close> orders strings by their code units, which is the lexicographic order on
  character lists used here. The arguments are arrays (the \<open>num || []\<close> guard against a
  missing one is not modelled). The stored object keeps the arrays as they were passed.
\<close>

fun join :: "string \<Rightarrow> string list \<Rightarrow> string" where
  "join sep [] = []"
| "join sep [x] = x"
| "join sep (x # y # ys) = x @ sep @ join sep (y # ys)"

definition units_key :: "string list \<Rightarrow> string list \<Rightarrow> string" where
  "units_key n d = join '':'' (sort n) @ ''/'' @ join '':'' (sort d)"

definition newUnits :: "string list \<Rightarrow> string list \<Rightarrow> DAG \<Rightarrow> Units \<times> DAG" where
  "newUnits n d g =
     (let key = units_key n d in
      case unitsMap g key of
        Some out \<Rightarrow> (out, g)
      | None \<Rightarrow>
          (let out = \<lparr> units_addr = units_next g, num = n, den = d \<rparr> in
           (out, g\<lparr> unitsMap := (unitsMap g)(key \<mapsto> out),
                    units_next := units_next g + 1 \<rparr>)))"

subsection \<open>Functions, literals, variables\<close>

definition getFunc :: "string \<Rightarrow> DAG \<Rightarrow> FuncType option" where
  "getFunc name g = funcs g name"

definition regFunc :: "string \<Rightarrow> FuncType \<Rightarrow> DAG \<Rightarrow> DAG" where
  "regFunc name f g = g\<lparr> funcs := (funcs g)(name \<mapsto> f) \<rparr>"

definition newFunc :: "string \<Rightarrow> expr list \<Rightarrow> DAG \<Rightarrow> expr \<times> DAG" where
  "newFunc name as g = (FuncCall (counter g) name as, g\<lparr> counter := counter g + 1 \<rparr>)"

definition newBool :: "bool \<Rightarrow> DAG \<Rightarrow> expr" where
  "newBool b g = (if b then TRUE g else FALSE g)"

definition newNum :: "int \<Rightarrow> DAG \<Rightarrow> expr \<times> DAG" where
  "newNum n g = (Value (counter g) (VNum n), g\<lparr> counter := counter g + 1 \<rparr>)"

definition newStr :: "string \<Rightarrow> DAG \<Rightarrow> expr \<times> DAG" where
  "newStr s g = (Value (counter g) (VStr s), g\<lparr> counter := counter g + 1 \<rparr>)"

definition newVarRef :: "string \<Rightarrow> DAG \<Rightarrow> expr \<times> DAG" where
  "newVarRef name g = (VarRef (counter g) name, g\<lparr> counter := counter g + 1 \<rparr>)"

text \<open>\<open>getVar(varname, ensure)\<close>: with \<open>ensure\<close> a missing variable is created,
  bound to \<open>NULL\<close>, and stored.\<close>

definition getVar :: "string \<Rightarrow> bool \<Rightarrow> DAG \<Rightarrow> Var option \<times> DAG" where
  "getVar varname ensure g =
     (case vars g varname of
        Some out \<Rightarrow> (Some out, g)
      | None \<Rightarrow>
          (if ensure then
             (let out = \<lparr> var_name = varname, var_value = NULL g \<rparr> in
              (Some out, g\<lparr> vars := (vars g)(varname \<mapsto> out) \<rparr>))
           else (None, g)))"

text \<open>
  \<open>exprContainsVar(expr, varname)\<close>. The search follows a \<open>VarRef\<close> into the
  current defining expression of the variable it names, so it is not structural: the first
  argument bounds the number of variables followed along one path, and \<open>None\<close> is the
  search not returning (on a cyclic variable table the source recurses without end).
  Following a variable is the only step that uses the bound.
\<close>

fun exprContainsVar :: "nat \<Rightarrow> expr \<Rightarrow> string \<Rightarrow> DAG \<Rightarrow> bool option"
  and argsContainVar :: "nat \<Rightarrow> expr list \<Rightarrow> string \<Rightarrow> DAG \<Rightarrow> bool option" where
  "exprContainsVar k (Value u v) varname g = Some False"
| "exprContainsVar k (VarRef u vname) varname g =
     (if vname = varname then Some True
      else case fst (getVar vname False g) of
             None \<Rightarrow> Some False
           | Some v \<Rightarrow> (case k of 0 \<Rightarrow> None
                        | Suc k' \<Rightarrow> exprContainsVar k' (var_value v) varname g))"
| "exprContainsVar k (FuncCall u f as) varname g = argsContainVar k as varname g"
| "argsContainVar k [] varname g = Some False"
| "argsContainVar k (e # es) varname g =
     (case exprContainsVar k e varname g of
        None \<Rightarrow> None
      | Some True \<Rightarrow> Some True
      | Some False \<Rightarrow> argsContainVar k es varname g)"

text \<open>
  \<open>setValue(varname, newValue)\<close>. The result carries the graph after the call also
  when the call throws; \<open>None\<close> is the cycle check not returning. \<open>getVar\<close> with
  \<open>ensure\<close> always yields a variable, so the \<open>None\<close> branch on \<open>vo\<close> (the
  assignment to a field of \<open>null\<close>) is never taken. The assignment \<open>v.value = newValue\<close>
  updates the object the table holds. \<open>lastModified\<close> is not assigned anywhere in
  \<open>setValue\<close>.
\<close>

definition setValue :: "nat \<Rightarrow> string \<Rightarrow> expr option \<Rightarrow> DAG \<Rightarrow> ((error + Var) \<times> DAG) option" where
  "setValue k varname newValue g =
     (let nv = (case newValue of None \<Rightarrow> NULL g | Some e \<Rightarrow> e);
          (vo, g1) = getVar varname True g in
      case exprContainsVar k nv varname g1 of
        None \<Rightarrow> None
      | Some True \<Rightarrow>
          Some (Inl (CircularReferenceError (''Circular reference for variable: '' @ varname)), g1)
      | Some False \<Rightarrow>
          (case vo of
             None \<Rightarrow> Some (Inl (Error ''TypeError''), g1)
           | Some v \<Rightarrow>
               (let v' = v\<lparr> var_value := nv \<rparr> in
                Some (Inr v', g1\<lparr> vars := (vars g1)(varname \<mapsto> v') \<rparr>))))"

definition newVar :: "nat \<Rightarrow> string \<Rightarrow> expr option \<Rightarrow> DAG \<Rightarrow> ((error + Var) \<times> DAG) option" where
  "newVar k varname e g = setValue k varname e g"

subsection \<open>Evaluation\<close>

text \<open>
  The call \<open>func(this.dag, values)\<close> of \<open>FuncCall.eval\<close>: the function sees the
  fields of the graph, and the graph after the call has the fields as the function left
  them and the registry with the function's registrations added, later ones overwriting
  earlier ones as \<open>Map.set\<close> does. The call is recorded in \<open>invoked\<close> whether the
  function returns or throws.
\<close>

definition invoke :: "string \<Rightarrow> FuncType \<Rightarrow> expr list \<Rightarrow> DAG \<Rightarrow> (error + expr) \<times> DAG" where
  "invoke f func values g =
     (case native func (DAG_state.truncate g) values of
        (r, s, regs) \<Rightarrow>
          (r, DAG_state.extend s
                (DAG.fields (foldl (\<lambda>m (n, h). m(n \<mapsto> h)) (funcs g) regs)
                            (invoked g @ [(f, values)]))))"

text \<open>
  \<open>Expr.latestValue\<close> (overridden by \<open>Value\<close> to return \<open>this\<close>), the three
  \<open>eval\<close> methods, and \<open>this.args.map((a) => a.latestValue)\<close> as
  \<open>latestValues\<close>. \<open>Var.latestValue\<close> is \<open>this.value.latestValue\<close>, inlined in
  the \<open>VarRef\<close> case. As in the cycle check, following a variable into its defining
  expression uses up one unit of the bound, and \<open>None\<close> is evaluation not returning.
  A thrown error leaves the cache fields written so far in place.
\<close>

fun latestValue :: "nat \<Rightarrow> expr \<Rightarrow> DAG \<Rightarrow> ((error + expr) \<times> DAG) option"
  and eval :: "nat \<Rightarrow> expr \<Rightarrow> DAG \<Rightarrow> ((error + expr) \<times> DAG) option"
  and latestValues :: "nat \<Rightarrow> expr list \<Rightarrow> DAG \<Rightarrow> ((error + expr list) \<times> DAG) option" where
  "latestValue k (Value u v) g = Some (Inr (Value u v), g)"
| "latestValue k (VarRef u n) g =
     (if lastEvaluated g u < lastModified g then
        (case eval k (VarRef u n) g of
           None \<Rightarrow> None
         | Some (Inl err, g') \<Rightarrow> Some (Inl err, g')
         | Some (Inr r, g') \<Rightarrow>
             Some (Inr r, g'\<lparr> cached := (cached g')(u := r),
                               lastEvaluated := (lastEvaluated g')(u := lastModified g') \<rparr>))
      else Some (Inr (cached g u), g))"
| "latestValue k (FuncCall u f as) g =
     (if lastEvaluated g u < lastModified g then
        (case eval k (FuncCall u f as) g of
           None \<Rightarrow> None
         | Some (Inl err, g') \<Rightarrow> Some (Inl err, g')
         | Some (Inr r, g') \<Rightarrow>
             Some (Inr r, g'\<lparr> cached := (cached g')(u := r),
                               lastEvaluated := (lastEvaluated g')(u := lastModified g') \<rparr>))
      else Some (Inr (cached g u), g))"
| "eval k (Value u v) g = Some (Inr (Value u v), g)"
| "eval k (VarRef u n) g =
     (case fst (getVar n False g) of
        None \<Rightarrow> Some (Inr (NULL g), g)
      | Some v \<Rightarrow> (case k of 0 \<Rightarrow> None | Suc k' \<Rightarrow> latestValue k' (var_value v) g))"
| "eval k (FuncCall u f as) g =
     (case latestValues k as g of
        None \<Rightarrow> None
      | Some (Inl err, g') \<Rightarrow> Some (Inl err, g')
      | Some (Inr values, g') \<Rightarrow>
          (case getFunc f g' of
             None \<Rightarrow> Some (Inl (InvalidRefError (''Invalid reference: '' @ f)), g')
           | Some func \<Rightarrow> Some (invoke f func values g')))"
| "latestValues k [] g = Some (Inr [], g)"
| "latestValues k (a # as) g =
     (case latestValue k a g of
        None \<Rightarrow> None
      | Some (Inl err, g') \<Rightarrow> Some (Inl err, g')
      | Some (Inr r, g') \<Rightarrow>
          (case latestValues k as g' of
             None \<Rightarrow> None
           | Some (Inl err, g'') \<Rightarrow> Some (Inl err, g'')
           | Some (Inr rs, g'') \<Rightarrow> Some (Inr (r # rs), g'')))"


text \<open>\<open>debugValue()\<close>: the payload of a \<open>Value\<close>, the string \<open>Var(name)\<close> for a
  \<open>VarRef\<close>, and the object \<open>{func, args}\<close> for a \<open>FuncCall\<close>.\<close>

datatype debug = DValue val | DFunc string "debug list"

fun debugValue :: "expr \<Rightarrow> debug" where
  "debugValue (Value u v) = DValue v"
| "debugValue (VarRef u n) = DValue (VStr (''Var('' @ n @ '')''))"
| "debugValue (FuncCall u f as) = DFunc f (map debugValue as)"

section \<open>The operator-precedence resolver (parser.ts)\<close>

text \<open>\<open>class Operator\<close>, with its three associativity constants, and the constructor's
  defaults \<open>assoc = Operator.LEFT\<close>, \<open>prefixBP = -1\<close>.\<close>

record Operator =
  op :: string
  bp :: int
  assoc :: int
  prefixBP :: int

definition LEFT :: int where "LEFT = - 1"
definition NOASSOC :: int where "NOASSOC = 0"
definition RIGHT :: int where "RIGHT = 1"

definition new_Operator :: "string \<Rightarrow> int \<Rightarrow> int option \<Rightarrow> int option \<Rightarrow> Operator" where
  "new_Operator s b a p =
     \<lparr> op = s, bp = b,
       assoc = (case a of None \<Rightarrow> LEFT | Some a' \<Rightarrow> a'),
       prefixBP = (case p of None \<Rightarrow> - 1 | Some p' \<Rightarrow> p') \<rparr>"

text \<open>An element of \<open>OpExpr.children\<close>: an operator symbol (a string) or a term (an
  expression). \<open>OpExpr.isOP\<close> holds \<open>typeof op === "string"\<close> for each child.\<close>

datatype token = Op string | Term expr

fun isOP :: "token \<Rightarrow> bool" where
  "isOP (Op s) = True"
| "isOP (Term e) = False"

type_synonym opinfos = "string \<rightharpoonup> Operator"

definition setOP :: "Operator \<Rightarrow> opinfos \<Rightarrow> opinfos" where
  "setOP opi ops = ops(op opi \<mapsto> opi)"

text \<open>The result of a resolver function: the error thrown, or the expression with the
  cursor \<open>i\<close> and \<open>Expr.counter\<close> after the call.\<close>

type_synonym presult = "error + (expr \<times> nat \<times> nat)"

definition getOp :: "opinfos \<Rightarrow> string \<Rightarrow> error + Operator" where
  "getOp ops s =
     (case ops s of
        None \<Rightarrow> Inl (Error (''Invalid operator: '' @ s))
      | Some opinfo \<Rightarrow> Inr opinfo)"

text \<open>A natural number in decimal, as string concatenation renders an index.\<close>

definition digit :: "nat \<Rightarrow> char" where
  "digit d = char_of (d + 48)"

fun string_of_nat :: "nat \<Rightarrow> string" where
  "string_of_nat n =
     (let last = [digit (n mod 10)] in
      if 10 \<le> n then string_of_nat (n div 10) @ last else last)"

declare string_of_nat.simps [simp del]

text \<open>\<open>bpof(index)\<close>. Past the end \<open>isOP[index]\<close> is \<open>undefined\<close>, so the same
  error is thrown as on a term.\<close>

definition bpof :: "opinfos \<Rightarrow> token list \<Rightarrow> nat \<Rightarrow> error + int" where
  "bpof ops ch index =
     (if index < length ch then
        (case ch ! index of
           Term e \<Rightarrow> Inl (Error (''Item at index is not an operator: '' @ string_of_nat index))
         | Op s \<Rightarrow> (case getOp ops s of Inl e \<Rightarrow> Inl e | Inr opi \<Rightarrow> Inr (bp opi)))
      else Inl (Error (''Item at index is not an operator: '' @ string_of_nat index)))"

text \<open>
  The closures \<open>parse\<close>, \<open>nud\<close> and \<open>led\<close> of \<open>ensureExpr\<close>, over the operator table
  \<open>ops\<close> and the children \<open>ch\<close>; the \<open>while\<close> loop of \<open>parse\<close> is
  \<open>parse_loop\<close>. \<open>next()\<close> is inlined: \<open>parse\<close> throws when no token is left and
  otherwise passes the index \<open>i\<close> on with the cursor at \<open>i + 1\<close>. \<open>nud\<close> and
  \<open>led\<close> only ever receive an index drawn by \<open>next()\<close>; past the end \<open>led\<close>
  throws as on a term, and \<open>nud\<close> would return \<open>undefined\<close>, which is no expression
  and is an error here. \<open>dag.newFunc\<close> draws the uuid after its argument is resolved.
\<close>

function parse :: "opinfos \<Rightarrow> token list \<Rightarrow> int \<Rightarrow> nat \<Rightarrow> nat \<Rightarrow> presult"
  and nud :: "opinfos \<Rightarrow> token list \<Rightarrow> nat \<Rightarrow> nat \<Rightarrow> nat \<Rightarrow> presult"
  and led :: "opinfos \<Rightarrow> token list \<Rightarrow> nat \<Rightarrow> expr \<Rightarrow> nat \<Rightarrow> nat \<Rightarrow> presult"
  and parse_loop :: "opinfos \<Rightarrow> token list \<Rightarrow> int \<Rightarrow> expr \<Rightarrow> nat \<Rightarrow> nat \<Rightarrow> presult" where
  "parse ops ch rbp i c =
     (if i < length ch then
        (case nud ops ch i (i + 1) c of
           Inl e \<Rightarrow> Inl e
         | Inr (left, i', c') \<Rightarrow> parse_loop ops ch rbp left i' c')
      else Inl (Error ''No more tokens''))"
| "nud ops ch index i c =
     (if index < length ch then
        (case ch ! index of
           Term e \<Rightarrow> Inr (e, i, c)
         | Op s \<Rightarrow>
             (case getOp ops s of
                Inl e \<Rightarrow> Inl e
              | Inr opi \<Rightarrow>
                  if prefixBP opi < 0 then
                    Inl (Error ''([object Object]) is not be a prefix operator'')
                  else (case parse ops ch (prefixBP opi) i c of
                          Inl e \<Rightarrow> Inl e
                        | Inr (a, i', c') \<Rightarrow> Inr (FuncCall c' (op opi) [a], i', c' + 1))))
      else Inl (Error ''undefined''))"
| "led ops ch index left i c =
     (if index < length ch then
        (case ch ! index of
           Term e \<Rightarrow> Inl (Error ''Expressions cannot have an LED method'')
         | Op s \<Rightarrow>
             (case getOp ops s of
                Inl e \<Rightarrow> Inl e
              | Inr opi \<Rightarrow>
                  if assoc opi = LEFT then
                    (case parse ops ch (bp opi) i c of
                       Inl e \<Rightarrow> Inl e
                     | Inr (a, i', c') \<Rightarrow> Inr (FuncCall c' (op opi) [left, a], i', c' + 1))
                  else if assoc opi = RIGHT then
                    (case parse ops ch (bp opi - 1) i c of
                       Inl e \<Rightarrow> Inl e
                     | Inr (a, i', c') \<Rightarrow> Inr (FuncCall c' (op opi) [left, a], i', c' + 1))
                  else Inl (Error (''OP ('' @ op opi @ '') has nonassoc''))))
      else Inl (Error ''Expressions cannot have an LED method''))"
| "parse_loop ops ch rbp left i c =
     (if i < length ch then
        (case bpof ops ch i of
           Inl e \<Rightarrow> Inl e
         | Inr b \<Rightarrow>
             if rbp < b then
               (case led ops ch i left (i + 1) c of
                  Inl e \<Rightarrow> Inl e
                | Inr (left', i', c') \<Rightarrow> parse_loop ops ch rbp left' i' c')
             else Inr (left, i, c))
      else Inr (left, i, c))"
  by pat_completeness auto

text \<open>\<open>ensureExpr(ex)\<close>: an expression is returned as it is; an \<open>OpExpr\<close>, given by
  its children, is resolved by \<open>parse()\<close> from the first child with \<open>rbp = 0\<close>.\<close>

datatype OpExpr_or_Expr = OpExpr "token list" | PlainExpr expr

fun ensureExpr :: "opinfos \<Rightarrow> OpExpr_or_Expr \<Rightarrow> nat \<Rightarrow> error + (expr \<times> nat)" where
  "ensureExpr ops (PlainExpr e) c = Inr (e, c)"
| "ensureExpr ops (OpExpr children) c =
     (case parse ops children 0 0 c of
        Inl e \<Rightarrow> Inl e
      | Inr (e, i, c') \<Rightarrow> Inr (e, c'))"

text \<open>The operator table \<open>+:10 LEFT prefix 100, -:10 LEFT prefix 100, *:30, /:30, ^:40,
  |:50\<close>, built by \<open>setOP\<close> as the tests build theirs.\<close>

definition table :: opinfos where
  "table =
     (setOP (new_Operator ''|'' 50 None None)
     (setOP (new_Operator ''^'' 40 None None)
     (setOP (new_Operator ''/'' 30 None None)
     (setOP (new_Operator ''*'' 30 None None)
     (setOP (new_Operator ''-'' 10 (Some (- 1)) (Some 100))
     (setOP (new_Operator ''+'' 10 (Some (- 1)) (Some 100)) Map.empty))))))"

text \<open>
  Two definitions that follow the specification's words rather than the source, for
  comparison with the resolver: \<open>chain_tail\<close> lays out the part \<open>op term op term ...\<close>
  of a flat chain, and \<open>left_nest\<close> is the left-leaning nesting
  \<open>op\<^sub>n(... op\<^sub>2(op\<^sub>1(left, t\<^sub>1), t\<^sub>2) ..., t\<^sub>n)\<close>, each \<open>FuncCall\<close> named by its operator's
  table entry and drawing the next uuid.
\<close>

fun chain_tail :: "(string \<times> expr) list \<Rightarrow> token list" where
  "chain_tail [] = []"
| "chain_tail ((s, t) # rest) = Op s # Term t # chain_tail rest"

fun left_nest :: "opinfos \<Rightarrow> expr \<Rightarrow> nat \<Rightarrow> (string \<times> expr) list \<Rightarrow> expr \<times> nat" where
  "left_nest ops left c [] = (left, c)"
| "left_nest ops left c ((s, t) # rest) =
     (case ops s of
        None \<Rightarrow> (left, c)
      | Some opi \<Rightarrow> left_nest ops (FuncCall c (op opi) [left, t]) (c + 1) rest)"

section \<open>Call sequences\<close>

text \<open>
  The test "Create VARs and Circular Ref" of core.spec.ts: on a new graph with \<open>+\<close>
  registered, \<open>x = 3\<close>, \<open>y = 5\<close>, \<open>z = +(x, y)\<close>, then
  \<open>setValue("x", newVarRef("z"))\<close>, whose outcome is the result. \<open>plusf\<close> stands for
  the function registered under \<open>+\<close> and \<open>c\<close> for \<open>Expr.counter\<close> at the start.
\<close>

definition test_circular_ref :: "nat \<Rightarrow> FuncType \<Rightarrow> nat \<Rightarrow> ((error + Var) \<times> DAG) option" where
  "test_circular_ref k plusf c =
     (let d = regFunc ''+'' plusf (new_DAG c);
          (three, d) = newNum 3 d in
      case newVar k ''x'' (Some three) d of None \<Rightarrow> None | Some (vx, d) \<Rightarrow>
     (let (five, d) = newNum 5 d in
      case newVar k ''y'' (Some five) d of None \<Rightarrow> None | Some (vy, d) \<Rightarrow>
     (let (rx, d) = newVarRef ''x'' d;
          (ry, d) = newVarRef ''y'' d;
          (call, d) = newFunc ''+'' [rx, ry] d in
      case newVar k ''z'' (Some call) d of None \<Rightarrow> None | Some (vz, d) \<Rightarrow>
     (let (rz, d) = newVarRef ''z'' d in
      setValue k ''x'' (Some rz) d))))"

text \<open>
  A read, a redefinition, and a second read: on a new graph with \<open>f\<close> registered under
  \<open>f\<close>, \<open>x = 3\<close>; the expression \<open>f(x)\<close> is read through \<open>latestValue\<close>;
  \<open>x\<close> is redefined to \<open>5\<close>; the same expression is read again. The result is the
  two values read and the graph after the second read.
\<close>

definition read_redefine_read :: "nat \<Rightarrow> FuncType \<Rightarrow> nat \<Rightarrow> (((error + expr) \<times> (error + expr)) \<times> DAG) option" where
  "read_redefine_read k f c =
     (let d = regFunc ''f'' f (new_DAG c);
          (three, d) = newNum 3 d in
      case setValue k ''x'' (Some three) d of None \<Rightarrow> None | Some (vx, d) \<Rightarrow>
     (let (rx, d) = newVarRef ''x'' d;
          (fx, d) = newFunc ''f'' [rx] d in
      case latestValue k fx d of None \<Rightarrow> None | Some (r1, d) \<Rightarrow>
     (let (five, d) = newNum 5 d in
      case setValue k ''x'' (Some five) d of None \<Rightarrow> None | Some (vx', d) \<Rightarrow>
     (case latestValue k fx d of None \<Rightarrow> None | Some (r2, d) \<Rightarrow>
        Some ((r1, r2), d)))))"

text \<open>A native function for the examples: it returns its first argument, throws when
  called without one, and leaves the graph alone.\<close>

definition first_arg :: FuncType where
  "first_arg =
     Native (\<lambda>s values.
       (case values of [] \<Rightarrow> Inl (Error ''no argument'') | v # vs \<Rightarrow> Inr v, s, []))"


section \<open>Termination of the resolver\<close>

text \<open>Every call of \<open>parse\<close> and \<open>led\<close> that returns has moved the cursor forward, and
  \<open>nud\<close> and the loop never move it back; so the cursor's distance to the end of the
  chain decreases along every chain of calls.\<close>

lemma cursor_advances:
  "parse_nud_led_parse_loop_dom (Inl (Inl (ops, ch, rbp, i, c))) \<Longrightarrow>
     \<forall>e i' c'. parse ops ch rbp i c = Inr (e, i', c') \<longrightarrow> i < i'"
  "parse_nud_led_parse_loop_dom (Inl (Inr (ops, ch, index, i, c))) \<Longrightarrow>
     \<forall>e i' c'. nud ops ch index i c = Inr (e, i', c') \<longrightarrow> i \<le> i'"
  "parse_nud_led_parse_loop_dom (Inr (Inl (ops, ch, index, left, i, c))) \<Longrightarrow>
     \<forall>e i' c'. led ops ch index left i c = Inr (e, i', c') \<longrightarrow> i < i'"
  "parse_nud_led_parse_loop_dom (Inr (Inr (ops, ch, rbp, left, i, c))) \<Longrightarrow>
     \<forall>e i' c'. parse_loop ops ch rbp left i c = Inr (e, i', c') \<longrightarrow> i \<le> i'"
proof (induct rule: parse_nud_led_parse_loop.pinduct)
  case (1 ops ch rbp i c)
  then show ?case
    by (fastforce simp: parse.psimps split: if_splits sum.splits prod.splits)
next
  case (2 ops ch index i c)
  then show ?case
    by (fastforce simp: nud.psimps split: if_splits sum.splits prod.splits token.splits)
next
  case (3 ops ch index left i c)
  then show ?case
    by (fastforce simp: led.psimps split: if_splits sum.splits prod.splits token.splits)
next
  case (4 ops ch rbp left i c)
  then show ?case
    by (fastforce simp: parse_loop.psimps split: if_splits sum.splits prod.splits)
qed

termination parse
proof (relation "measure (\<lambda>x. case x of
      Inl (Inl (ops, ch, rbp, i, c)) \<Rightarrow> 3 * (length ch - i) + 1
    | Inl (Inr (ops, ch, index, i, c)) \<Rightarrow> 3 * (length ch - i) + 2
    | Inr (Inl (ops, ch, index, left, i, c)) \<Rightarrow> 3 * (length ch - i) + 2
    | Inr (Inr (ops, ch, rbp, left, i, c)) \<Rightarrow> 3 * (length ch - i))", goal_cases)
  case 1
  show ?case by simp
next
  case (2 ops ch rbp i c)
  then show ?case by simp
next
  case (3 ops ch rbp i c b x y xa ya)
  then have "i + 1 \<le> xa" using cursor_advances(2) by fastforce
  with 3 show ?case by auto
next
  case (4 ops ch index i c x1 b)
  then show ?case by simp
next
  case (5 ops ch index left i c x1 b)
  then show ?case by simp
next
  case (6 ops ch index left i c x1 b)
  then show ?case by simp
next
  case (7 ops ch rbp left i c b)
  then show ?case by simp
next
  case (8 ops ch rbp left i c b ba x y xa ya)
  then have "i + 1 < xa" using cursor_advances(3) by fastforce
  with 8 show ?case by auto
qed

declare parse.simps [simp del] nud.simps [simp del] led.simps [simp del]
  parse_loop.simps [simp del]

section \<open>The cycle check\<close>

text \<open>The search for \<open>varname\<close> never looks into the slot of \<open>varname\<close> itself (a
  reference to it is a hit before the table is read), so the slot that \<open>setValue\<close>
  creates beforehand does not change its answer.\<close>

lemma search_ignores_own_slot:
  "exprContainsVar k e varname (g\<lparr> vars := (vars g)(varname \<mapsto> w) \<rparr>) = exprContainsVar k e varname g"
  "argsContainVar k es varname (g\<lparr> vars := (vars g)(varname \<mapsto> w) \<rparr>) = argsContainVar k es varname g"
  by (induction k e varname g and k es varname g rule: exprContainsVar_argsContainVar.induct)
     (simp_all add: getVar_def split: option.splits nat.splits bool.splits)

lemma search_after_ensure:
  "exprContainsVar k e varname (snd (getVar varname True g)) = exprContainsVar k e varname g"
  by (simp add: getVar_def Let_def search_ignores_own_slot split: option.splits)

text \<open>An answer of the search does not depend on the bound: a larger bound gives the same
  answer.\<close>

lemma search_mono:
  "exprContainsVar k e varname g = Some b \<Longrightarrow> k \<le> k' \<Longrightarrow> exprContainsVar k' e varname g = Some b"
  "argsContainVar k es varname g = Some b \<Longrightarrow> k \<le> k' \<Longrightarrow> argsContainVar k' es varname g = Some b"
proof (induction k e varname g and k es varname g arbitrary: k' b and k' b
    rule: exprContainsVar_argsContainVar.induct)
  case (1 k u v varname g)
  then show ?case by simp
next
  case (2 k u vname varname g)
  show ?case
  proof (cases "vname = varname")
    case True
    with 2(2) show ?thesis by simp
  next
    case ne: False
    show ?thesis
    proof (cases "fst (getVar vname False g)")
      case None
      with 2(2) ne show ?thesis by simp
    next
      case (Some v)
      with 2(2) ne obtain j where k: "k = Suc j"
        and r: "exprContainsVar j (var_value v) varname g = Some b"
        by (cases k) auto
      from 2(3) k obtain j' where k': "k' = Suc j'" and le: "j \<le> j'" by (cases k') auto
      from 2(1)[OF ne Some k r le] show ?thesis using ne Some k' by simp
    qed
  qed
next
  case (3 k u f as varname g)
  from 3(2) have "argsContainVar k as varname g = Some b" by simp
  from 3(1)[OF this 3(3)] show ?case by simp
next
  case (4 k varname g)
  then show ?case by simp
next
  case (5 k e es varname g)
  from 5(3) obtain b1 where e1: "exprContainsVar k e varname g = Some b1"
    by (cases "exprContainsVar k e varname g") auto
  from 5(1)[OF e1 5(4)] have e1': "exprContainsVar k' e varname g = Some b1" .
  show ?case
  proof (cases b1)
    case True
    with 5(3) e1 e1' show ?thesis by simp
  next
    case False
    then have f: "b1 = False" by simp
    with 5(3) e1 have "argsContainVar k es varname g = Some b" by simp
    from 5(2)[OF e1 f this 5(4)] show ?thesis using e1' f by simp
  qed
qed

text \<open>\<open>setValue\<close> never assigns \<open>lastModified\<close>, whether it returns or throws.\<close>

lemma setValue_lastModified:
  "setValue k varname newValue g = Some (r, g') \<Longrightarrow> lastModified g' = lastModified g"
  unfolding setValue_def getVar_def Let_def
  by (cases "vars g varname";
      cases "exprContainsVar k (case newValue of None \<Rightarrow> NULL g | Some e \<Rightarrow> e) varname g")
     (auto split: option.splits bool.splits)

section \<open>The evaluation cache\<close>

text \<open>A read that returned a value has left the node stamped with the current
  \<open>lastModified\<close>, so reading the same node again in the graph it left returns the same
  value and changes nothing: no function is invoked, whatever the bound.\<close>

lemma second_read_is_cached:
  assumes "latestValue k e g = Some (Inr v, g')"
  shows "latestValue k' e g' = Some (Inr v, g')"
proof (cases e)
  case (Value u x)
  with assms show ?thesis by auto
next
  case (VarRef u n)
  show ?thesis
  proof (cases "lastEvaluated g u < lastModified g")
    case True
    with assms VarRef obtain g'' where
      "g' = g''\<lparr> cached := (cached g'')(u := v), lastEvaluated := (lastEvaluated g'')(u := lastModified g'') \<rparr>"
      by (auto split: option.splits sum.splits prod.splits)
    then show ?thesis using VarRef by simp
  next
    case False
    with assms VarRef show ?thesis by auto
  qed
next
  case (FuncCall u f as)
  show ?thesis
  proof (cases "lastEvaluated g u < lastModified g")
    case True
    with assms FuncCall obtain g'' where
      "g' = g''\<lparr> cached := (cached g'')(u := v), lastEvaluated := (lastEvaluated g'')(u := lastModified g'') \<rparr>"
      by (auto split: option.splits sum.splits prod.splits)
    then show ?thesis using FuncCall by simp
  next
    case False
    with assms FuncCall show ?thesis by auto
  qed
qed

section \<open>Units keys\<close>

text \<open>Two listings of the same names in any order sort to the same list, hence give the
  same key; and a call whose key is that of the call before it returns the \<open>Units\<close>
  object of that call and leaves the graph alone.\<close>

lemma sort_permutation:
  fixes xs ys :: "string list"
  shows "mset xs = mset ys \<Longrightarrow> sort xs = sort ys"
  by (metis mset_sort properties_for_sort sorted_sort)

lemma units_key_permutation:
  "mset n1 = mset n2 \<Longrightarrow> mset d1 = mset d2 \<Longrightarrow> units_key n1 d1 = units_key n2 d2"
  by (simp add: units_key_def sort_permutation [of n1 n2] sort_permutation [of d1 d2])

lemma newUnits_same_key:
  "units_key n2 d2 = units_key n1 d1 \<Longrightarrow>
     newUnits n2 d2 (snd (newUnits n1 d1 g)) = newUnits n1 d1 g"
  by (cases "unitsMap g (units_key n1 d1)") (simp_all add: newUnits_def Let_def)

section \<open>Chains of operators of one binding power\<close>

text \<open>
  A term followed by nothing, or by an operator that does not bind more tightly than
  \<open>b\<close>, is all that \<open>parse(b)\<close> consumes. From that, a chain whose operators are all
  left-associative with one binding power is folded by the loop of the outer \<open>parse\<close>
  one operator at a time, each \<open>led\<close> taking the single term to its right.
\<close>

lemma length_chain_tail: "length (chain_tail ots) = 2 * length ots"
  by (induction ots rule: chain_tail.induct) simp_all

lemma table_lookup:
  "table ''+'' = Some \<lparr> op = ''+'', bp = 10, assoc = - 1, prefixBP = 100 \<rparr>"
  "table ''-'' = Some \<lparr> op = ''-'', bp = 10, assoc = - 1, prefixBP = 100 \<rparr>"
  "table ''*'' = Some \<lparr> op = ''*'', bp = 30, assoc = - 1, prefixBP = - 1 \<rparr>"
  by (simp_all add: table_def setOP_def new_Operator_def LEFT_def)

lemma term_then_same_power:
  assumes i: "i < length ch" and t: "ch ! i = Term t"
    and nxt: "Suc i < length ch \<longrightarrow> (\<exists>b'. bpof ops ch (Suc i) = Inr b' \<and> \<not> b < b')"
  shows "parse ops ch b i c = Inr (t, Suc i, c)"
proof -
  have n: "nud ops ch i (Suc i) c = Inr (t, Suc i, c)"
    using i t by (simp add: nud.simps)
  have l: "parse_loop ops ch b t (Suc i) c = Inr (t, Suc i, c)"
    using nxt by (auto simp: parse_loop.simps)
  show ?thesis using i n l by (simp add: parse.simps)
qed

lemma loop_left_chain:
  assumes same: "\<forall>(s, t) \<in> set ots. \<exists>opi. ops s = Some opi \<and> assoc opi = LEFT \<and> bp opi = b"
    and rbp: "rbp < b"
  shows "parse_loop ops (pre @ chain_tail ots) rbp left (length pre) c =
           Inr (fst (left_nest ops left c ots), length pre + 2 * length ots, snd (left_nest ops left c ots))"
  using same
proof (induction ots arbitrary: pre left c)
  case Nil
  then show ?case by (simp add: parse_loop.simps)
next
  case (Cons st rest)
  obtain s t where st: "st = (s, t)" by (cases st)
  from Cons.prems st obtain opi where opi: "ops s = Some opi" "assoc opi = LEFT" "bp opi = b"
    by auto
  let ?ch = "pre @ chain_tail (st # rest)"
  let ?i = "length pre"
  have len: "length ?ch = ?i + 2 + 2 * length rest" by (simp add: st length_chain_tail)
  have at_i: "?ch ! ?i = Op s" by (simp add: st)
  have at_i1: "?ch ! Suc ?i = Term t" by (simp add: st nth_append)
  have bp_i: "bpof ops ?ch ?i = Inr b"
    using len at_i opi by (simp add: bpof_def getOp_def)
  have nxt: "Suc (Suc ?i) < length ?ch \<longrightarrow> (\<exists>b'. bpof ops ?ch (Suc (Suc ?i)) = Inr b' \<and> \<not> b < b')"
  proof
    assume "Suc (Suc ?i) < length ?ch"
    with len obtain s' t' rest' where r: "rest = (s', t') # rest'" by (cases rest) auto
    with Cons.prems obtain opi' where "ops s' = Some opi'" "bp opi' = b" by auto
    moreover have "?ch ! Suc (Suc ?i) = Op s'" by (simp add: st r nth_append)
    ultimately show "\<exists>b'. bpof ops ?ch (Suc (Suc ?i)) = Inr b' \<and> \<not> b < b'"
      using len r by (simp add: bpof_def getOp_def)
  qed
  have inner: "parse ops ?ch b (Suc ?i) c = Inr (t, Suc (Suc ?i), c)"
    by (rule term_then_same_power) (use len at_i1 nxt in simp_all)
  have led: "led ops ?ch ?i left (Suc ?i) c = Inr (FuncCall c (op opi) [left, t], Suc (Suc ?i), c + 1)"
    using len at_i opi inner by (simp add: led.simps getOp_def)
  have split: "?ch = (pre @ [Op s, Term t]) @ chain_tail rest" by (simp add: st)
  have rest_same: "\<forall>(s, t) \<in> set rest. \<exists>opi. ops s = Some opi \<and> assoc opi = LEFT \<and> bp opi = b"
    using Cons.prems by simp
  have "parse_loop ops ?ch rbp left ?i c =
          parse_loop ops ?ch rbp (FuncCall c (op opi) [left, t]) (Suc (Suc ?i)) (c + 1)"
    using len bp_i rbp led by (subst parse_loop.simps) simp
  also have "\<dots> = parse_loop ops ((pre @ [Op s, Term t]) @ chain_tail rest) rbp
                     (FuncCall c (op opi) [left, t]) (length (pre @ [Op s, Term t])) (c + 1)"
    by (simp add: st)
  also have "\<dots> = Inr (fst (left_nest ops (FuncCall c (op opi) [left, t]) (c + 1) rest),
                      length (pre @ [Op s, Term t]) + 2 * length rest,
                      snd (left_nest ops (FuncCall c (op opi) [left, t]) (c + 1) rest))"
    by (rule Cons.IH [OF rest_same])
  finally show ?case using opi by (simp add: st)
qed

lemma left_chain:
  assumes same: "\<forall>(s, t) \<in> set ots. \<exists>opi. ops s = Some opi \<and> assoc opi = LEFT \<and> bp opi = b"
    and pos: "0 < b"
  shows "ensureExpr ops (OpExpr (Term t0 # chain_tail ots)) c = Inr (left_nest ops t0 c ots)"
proof -
  let ?ch = "Term t0 # chain_tail ots"
  have n: "nud ops ?ch 0 (0 + 1) c = Inr (t0, 1, c)" by (simp add: nud.simps)
  have "parse_loop ops ([Term t0] @ chain_tail ots) 0 t0 (length [Term t0]) c =
      Inr (fst (left_nest ops t0 c ots), length [Term t0] + 2 * length ots, snd (left_nest ops t0 c ots))"
    by (rule loop_left_chain [OF same pos])
  then have l: "parse_loop ops ?ch 0 t0 1 c =
      Inr (fst (left_nest ops t0 c ots), 1 + 2 * length ots, snd (left_nest ops t0 c ots))"
    by simp
  have "parse ops ?ch 0 0 c = Inr (fst (left_nest ops t0 c ots), 1 + 2 * length ots, snd (left_nest ops t0 c ots))"
    using n l by (subst parse.simps) simp
  then show ?thesis by simp
qed

lemma one_plus_two_plus_three:
  "ensureExpr table (OpExpr [Term t1, Op ''+'', Term t2, Op ''+'', Term t3]) c =
     Inr (FuncCall (c + 1) ''+'' [FuncCall c ''+'' [t1, t2], t3], c + 2)"
proof -
  have "ensureExpr table (OpExpr (Term t1 # chain_tail [(''+'', t2), (''+'', t3)])) c =
      Inr (left_nest table t1 c [(''+'', t2), (''+'', t3)])"
    by (rule left_chain [where b = 10]) (simp_all add: table_lookup LEFT_def)
  then show ?thesis by (simp add: table_lookup)
qed

text \<open>Two operators of different binding powers: the loop of the inner \<open>parse\<close> goes on
  exactly when the next operator binds more tightly than the one being resolved.\<close>

lemmas resolver_simps = parse.simps nud.simps led.simps parse_loop.simps bpof_def getOp_def
  table_lookup LEFT_def

lemma one_plus_two_times_three:
  "ensureExpr table (OpExpr [Term t1, Op ''+'', Term t2, Op ''*'', Term t3]) c =
     Inr (FuncCall (c + 1) ''+'' [t1, FuncCall c ''*'' [t2, t3]], c + 2)"
  by (simp add: resolver_simps)

lemma one_times_two_plus_three:
  "ensureExpr table (OpExpr [Term t1, Op ''*'', Term t2, Op ''+'', Term t3]) c =
     Inr (FuncCall (c + 1) ''+'' [FuncCall c ''*'' [t1, t2], t3], c + 2)"
  by (simp add: resolver_simps)

lemma prefix_then_term:
  assumes "ops s = Some opi" "0 \<le> prefixBP opi"
  shows "ensureExpr ops (OpExpr [Op s, Term t]) c = Inr (FuncCall c (op opi) [t], c + 1)"
proof -
  let ?ch = "[Op s, Term t]"
  have inner: "parse ops ?ch (prefixBP opi) (Suc 0) c = Inr (t, Suc (Suc 0), c)"
    by (rule term_then_same_power) simp_all
  have n: "nud ops ?ch 0 (Suc 0) c = Inr (FuncCall c (op opi) [t], 2, c + 1)"
    using assms inner by (simp add: nud.simps getOp_def)
  have l: "parse_loop ops ?ch 0 (FuncCall c (op opi) [t]) 2 (c + 1) = Inr (FuncCall c (op opi) [t], 2, c + 1)"
    by (simp add: parse_loop.simps)
  have "parse ops ?ch 0 0 c = Inr (FuncCall c (op opi) [t], 2, c + 1)"
    using n l by (subst parse.simps) simp
  then show ?thesis by simp
qed

lemma not_prefix_fails:
  assumes "ops s = Some opi" "prefixBP opi < 0"
  shows "ensureExpr ops (OpExpr (Op s # rest)) c = Inl (Error ''([object Object]) is not be a prefix operator'')"
proof -
  have n: "nud ops (Op s # rest) 0 (0 + 1) c = Inl (Error ''([object Object]) is not be a prefix operator'')"
    using assms by (simp add: nud.simps getOp_def)
  have "parse ops (Op s # rest) 0 0 c = Inl (Error ''([object Object]) is not be a prefix operator'')"
    using n by (subst parse.simps) simp
  then show ?thesis by simp
qed


section \<open>The circular-reference test\<close>

lemmas api_defs = regFunc_def new_DAG_def newNum_def newVar_def setValue_def getVar_def
  newVarRef_def newFunc_def getFunc_def Let_def

lemmas invoke_defs = invoke_def DAG_state.truncate_def DAG_state.extend_def DAG.fields_def

lemma test_circular_ref_result:
  "\<exists>g. test_circular_ref (Suc k) plusf c =
         Some (Inl (CircularReferenceError ''Circular reference for variable: x''), g) \<and>
       vars g ''x'' = Some \<lparr> var_name = ''x'', var_value = Value (c + 5) (VNum 3) \<rparr>"
  by (simp add: test_circular_ref_def api_defs)

section \<open>Properties of the expression graph\<close>

text \<open>
  C8. Evaluating a \<open>VarRef\<close> whose name is bound to no \<open>Var\<close> returns the graph's
  \<open>NULL\<close> singleton and raises nothing: \<open>eval\<close> returns it whatever the bound and
  leaves the graph as it was, and so does a read through \<open>latestValue\<close> that has to
  evaluate, which also stores it in the node's cache. A read through \<open>latestValue\<close>
  returns a value in every case.
\<close>

theorem undefined_variable_reads_NULL:
  "vars g n = None \<Longrightarrow>
     eval k (VarRef u n) g = Some (Inr (NULL g), g) \<and>
     (lastEvaluated g u < lastModified g \<longrightarrow>
        (\<exists>g'. latestValue k (VarRef u n) g = Some (Inr (NULL g), g') \<and> NULL g' = NULL g)) \<and>
     (\<exists>r g'. latestValue k (VarRef u n) g = Some (Inr r, g'))"
  by (simp add: getVar_def)

theorem undefined_variable_reads_NULL_witness:
  "vars (new_DAG 0) ''x'' = None \<and>
   eval 0 (VarRef 5 ''x'') (new_DAG 0) = Some (Inr (Value 0 VNull), new_DAG 0) \<and>
   lastEvaluated (new_DAG 0) 5 < lastModified (new_DAG 0) \<and>
   map_option fst (latestValue 0 (VarRef 5 ''x'') (new_DAG 0)) = Some (Inr (Value 0 VNull))"
proof -
  have a: "vars (new_DAG 0) ''x'' = None" by (simp add: new_DAG_def)
  have b: "lastEvaluated (new_DAG 0) 5 < lastModified (new_DAG 0)" by (simp add: new_DAG_def)
  have n: "NULL (new_DAG 0) = Value 0 VNull" by (simp add: new_DAG_def)
  note w = undefined_variable_reads_NULL [OF a, of 0 5]
  from w n have c: "eval 0 (VarRef 5 ''x'') (new_DAG 0) = Some (Inr (Value 0 VNull), new_DAG 0)"
    by (elim conjE) (simp only:)
  from w b n have d: "map_option fst (latestValue 0 (VarRef 5 ''x'') (new_DAG 0)) = Some (Inr (Value 0 VNull))"
    by (elim conjE) auto
  from a b c d show ?thesis by blast
qed

text \<open>
  C1. The search \<open>exprContainsVar\<close> never matches a \<open>Value\<close>, is an immediate hit
  on a \<open>VarRef\<close> to \<open>name\<close>, and on a \<open>VarRef\<close> to another, bound variable
  continues into that variable's current defining expression; in a \<open>FuncCall\<close> it
  searches the arguments in order, each of them, up to the first hit.
  \<open>setValue(name, newExpr)\<close>: when the search from the new
  expression (or from \<open>NULL\<close> when none is given) reaches \<open>name\<close>, the call throws
  \<open>CircularReferenceError\<close>, for every bound at least as large as one for which the search
  reports the hit. A variable that existed keeps its binding and the whole graph is as
  before; no other variable changes; a variable that did not exist reads \<open>NULL\<close> as it
  did before. In particular, after \<open>x = 3\<close>, \<open>y = 5\<close>, \<open>z = +(x, y)\<close>, redefining
  \<open>x\<close> as a reference to \<open>z\<close> throws the circular-reference error for \<open>x\<close>, and
  \<open>x\<close> is still bound to the literal \<open>3\<close>.
\<close>

theorem setValue_rejects_cycle:
  "exprContainsVar k (Value u v) varname g = Some False \<and>
   exprContainsVar k (VarRef u varname) varname g = Some True \<and>
   (m \<noteq> varname \<and> vars g m = Some w \<longrightarrow>
      exprContainsVar (Suc k) (VarRef u m) varname g = exprContainsVar k (var_value w) varname g) \<and>
   exprContainsVar k (FuncCall u f []) varname g = Some False \<and>
   exprContainsVar k (FuncCall u f (a # as)) varname g =
     (case exprContainsVar k a varname g of
        None \<Rightarrow> None
      | Some True \<Rightarrow> Some True
      | Some False \<Rightarrow> exprContainsVar k (FuncCall u f as) varname g) \<and>
   (exprContainsVar k (case newValue of None \<Rightarrow> NULL g | Some e \<Rightarrow> e) varname g = Some True \<and> k \<le> k' \<longrightarrow>
     (\<exists>g'. setValue k' varname newValue g =
              Some (Inl (CircularReferenceError (''Circular reference for variable: '' @ varname)), g') \<and>
           (\<forall>v. vars g varname = Some v \<longrightarrow> g' = g) \<and>
           (\<forall>n. n \<noteq> varname \<longrightarrow> vars g' n = vars g n) \<and>
           map_option var_value (vars g' varname) =
             Some (case vars g varname of None \<Rightarrow> NULL g | Some v \<Rightarrow> var_value v))) \<and>
   (\<exists>g'. test_circular_ref (Suc j) plusf c =
         Some (Inl (CircularReferenceError ''Circular reference for variable: x''), g') \<and>
       vars g' ''x'' = Some \<lparr> var_name = ''x'', var_value = Value (c + 5) (VNum 3) \<rparr>)"
proof (intro conjI impI)
  show "exprContainsVar k (Value u v) varname g = Some False" by simp
  show "exprContainsVar k (VarRef u varname) varname g = Some True" by simp
next
  assume "m \<noteq> varname \<and> vars g m = Some w"
  then show "exprContainsVar (Suc k) (VarRef u m) varname g = exprContainsVar k (var_value w) varname g"
    by (simp add: getVar_def)
next
  show "exprContainsVar k (FuncCall u f []) varname g = Some False" by simp
  show "exprContainsVar k (FuncCall u f (a # as)) varname g =
     (case exprContainsVar k a varname g of
        None \<Rightarrow> None
      | Some True \<Rightarrow> Some True
      | Some False \<Rightarrow> exprContainsVar k (FuncCall u f as) varname g)"
    by (simp split: option.splits bool.splits)
next
  let ?nv = "case newValue of None \<Rightarrow> NULL g | Some e \<Rightarrow> e"
  let ?g1 = "snd (getVar varname True g)"
  assume "exprContainsVar k ?nv varname g = Some True \<and> k \<le> k'"
  then have "exprContainsVar k' ?nv varname g = Some True" by (auto intro: search_mono(1))
  then have hit: "exprContainsVar k' ?nv varname ?g1 = Some True"
    by (simp only: search_after_ensure)
  have res: "setValue k' varname newValue g =
      Some (Inl (CircularReferenceError (''Circular reference for variable: '' @ varname)), ?g1)"
    using hit by (cases "getVar varname True g") (simp add: setValue_def)
  show "\<exists>g'. setValue k' varname newValue g =
              Some (Inl (CircularReferenceError (''Circular reference for variable: '' @ varname)), g') \<and>
           (\<forall>v. vars g varname = Some v \<longrightarrow> g' = g) \<and>
           (\<forall>n. n \<noteq> varname \<longrightarrow> vars g' n = vars g n) \<and>
           map_option var_value (vars g' varname) =
             Some (case vars g varname of None \<Rightarrow> NULL g | Some v \<Rightarrow> var_value v)"
    unfolding res by (cases "vars g varname") (simp_all add: getVar_def Let_def)
next
  show "\<exists>g'. test_circular_ref (Suc j) plusf c =
         Some (Inl (CircularReferenceError ''Circular reference for variable: x''), g') \<and>
       vars g' ''x'' = Some \<lparr> var_name = ''x'', var_value = Value (c + 5) (VNum 3) \<rparr>"
    by (rule test_circular_ref_result)
qed

theorem setValue_rejects_cycle_witness:
  "exprContainsVar 0 (VarRef 5 ''x'') ''x'' (new_DAG 0) = Some True \<and>
   map_option fst (setValue 3 ''x'' (Some (VarRef 5 ''x'')) (new_DAG 0)) =
     Some (Inl (CircularReferenceError ''Circular reference for variable: x'')) \<and>
   map_option fst (test_circular_ref 1 first_arg 0) =
     Some (Inl (CircularReferenceError ''Circular reference for variable: x''))"
proof -
  have h: "exprContainsVar 0 (VarRef 5 ''x'') ''x'' (new_DAG 0) = Some True" by simp
  note w = setValue_rejects_cycle [where k = 0 and newValue = "Some (VarRef 5 ''x'')"
      and g = "new_DAG 0" and varname = "''x''" and k' = 3 and j = 0 and plusf = first_arg and c = 0]
  note w' = w [THEN conjunct2, THEN conjunct2, THEN conjunct2, THEN conjunct2, THEN conjunct2]
  from w' h have a: "map_option fst (setValue 3 ''x'' (Some (VarRef 5 ''x'')) (new_DAG 0)) =
      Some (Inl (CircularReferenceError ''Circular reference for variable: x''))"
    by auto
  from w' have b: "map_option fst (test_circular_ref 1 first_arg 0) =
      Some (Inl (CircularReferenceError ''Circular reference for variable: x''))"
    by auto
  from h a b show ?thesis by blast
qed

text \<open>
  C10. When \<open>setValue(name, newExpr)\<close> throws the circular-reference error and the
  table held no variable \<open>name\<close> before the call, the table holds one afterwards, bound
  to the graph's \<open>NULL\<close>: \<open>getVar(name, true)\<close> runs before the cycle check.
\<close>

theorem failed_definition_creates_slot:
  "vars g varname = None \<Longrightarrow>
   setValue k varname newValue g = Some (Inl (CircularReferenceError msg), g') \<Longrightarrow>
     vars g' varname = Some \<lparr> var_name = varname, var_value = NULL g \<rparr> \<and> NULL g' = NULL g"
  unfolding setValue_def getVar_def Let_def
  by (cases "exprContainsVar k (case newValue of None \<Rightarrow> NULL g | Some e \<Rightarrow> e) varname
        (g\<lparr>vars := (vars g)(varname \<mapsto> \<lparr>var_name = varname, var_value = NULL g\<rparr>)\<rparr>)")
     (auto split: bool.splits)

theorem failed_definition_creates_slot_witness:
  "vars (new_DAG 0) ''x'' = None \<and>
   (\<exists>g'. setValue 0 ''x'' (Some (VarRef 5 ''x'')) (new_DAG 0) =
       Some (Inl (CircularReferenceError ''Circular reference for variable: x''), g') \<and>
     vars g' ''x'' = Some \<lparr> var_name = ''x'', var_value = Value 0 VNull \<rparr>)"
proof -
  have a: "vars (new_DAG 0) ''x'' = None" by (simp add: new_DAG_def)
  obtain g' where b: "setValue 0 ''x'' (Some (VarRef 5 ''x'')) (new_DAG 0) =
       Some (Inl (CircularReferenceError ''Circular reference for variable: x''), g')"
    by (simp add: setValue_def getVar_def new_DAG_def Let_def)
  from failed_definition_creates_slot [OF a b] a b show ?thesis by (simp add: new_DAG_def)
qed

text \<open>
  C2. A successful \<open>setValue\<close> is claimed to increment the generation counter
  \<open>lastModified\<close>. On a new graph, \<open>setValue("x", 3)\<close> succeeds, binds \<open>x\<close>, and
  leaves \<open>lastModified\<close> at \<open>0\<close>, where it was (\<open>setValue_lastModified\<close> shows the
  same for every call).
\<close>

theorem setValue_leaves_lastModified:
  "(case newNum 3 (new_DAG 0) of (three, d) \<Rightarrow>
      (case setValue 0 ''x'' (Some three) d of
         Some (Inr v, d') \<Rightarrow>
           lastModified d = 0 \<and> lastModified d' = 0 \<and> vars d' ''x'' = Some v \<and>
           var_value v = three
       | _ \<Rightarrow> False))"
  by (simp add: newNum_def setValue_def getVar_def new_DAG_def Let_def)

text \<open>
  C3. A second read with no redefinition in between returns the cached value without
  invoking anything (\<open>second_read_is_cached\<close>). After a redefinition the next read is
  claimed to recompute: with \<open>x = 3\<close>, the expression \<open>f(x)\<close> reads \<open>3\<close>; after
  \<open>x\<close> is redefined to \<open>5\<close>, the same expression still reads \<open>3\<close>, \<open>f\<close> has
  been invoked once in all, and \<open>lastModified\<close> is still \<open>0\<close>.
\<close>

theorem redefinition_read_is_stale:
  "\<exists>g. read_redefine_read (Suc k) first_arg c =
       Some ((Inr (Value (c + 5) (VNum 3)), Inr (Value (c + 5) (VNum 3))), g) \<and>
     vars g ''x'' = Some \<lparr> var_name = ''x'', var_value = Value (c + 8) (VNum 5) \<rparr> \<and>
     invoked g = [(''f'', [Value (c + 5) (VNum 3)])] \<and>
     lastModified g = 0"
  by (simp add: read_redefine_read_def api_defs first_arg_def invoke_defs)

text \<open>
  C6, as claimed: \<open>newNum(0)\<close> returns the graph's \<open>ZERO\<close> and \<open>newNum(1)\<close> its
  \<open>ONE\<close>. On a new graph neither does.
\<close>

theorem newNum_zero_is_not_ZERO:
  "fst (newNum 0 (new_DAG 0)) \<noteq> ZERO (new_DAG 0) \<and> fst (newNum 1 (new_DAG 0)) \<noteq> ONE (new_DAG 0)"
  by (simp add: newNum_def new_DAG_def)

text \<open>
  C6, amended. \<open>newNum\<close> is not deduplicated: every call returns a new \<open>Value\<close>
  carrying the number and the next uuid. In a graph whose \<open>ZERO\<close> and \<open>ONE\<close> were
  created before (as in every graph made by \<open>new DAG()\<close>) the literal \<open>0\<close> is
  therefore not the \<open>ZERO\<close> instance and the literal \<open>1\<close> not the \<open>ONE\<close>
  instance, and two constructions of the same number are two instances; they agree with
  each other, and with the singleton, in the number they carry.
\<close>

theorem newNum_allocates:
  "(uuid (ZERO g) < counter g \<and> uuid (ONE g) < counter g \<longrightarrow>
      fst (newNum 0 g) \<noteq> ZERO g \<and> fst (newNum 1 g) \<noteq> ONE g) \<and>
   fst (newNum n g) = Value (counter g) (VNum n) \<and>
   fst (newNum n (snd (newNum n g))) \<noteq> fst (newNum n g) \<and>
   debugValue (fst (newNum n (snd (newNum n g)))) = debugValue (fst (newNum n g)) \<and>
   debugValue (fst (newNum 0 (new_DAG c))) = debugValue (ZERO (new_DAG c)) \<and>
   debugValue (fst (newNum 1 (new_DAG c))) = debugValue (ONE (new_DAG c))"
  by (auto simp: newNum_def new_DAG_def) (metis less_irrefl uuid.simps(1))+

theorem newNum_allocates_witness:
  "uuid (ZERO (new_DAG 0)) < counter (new_DAG 0) \<and> uuid (ONE (new_DAG 0)) < counter (new_DAG 0) \<and>
   fst (newNum 0 (new_DAG 0)) \<noteq> ZERO (new_DAG 0) \<and>
   fst (newNum 0 (new_DAG 0)) = Value 5 (VNum 0) \<and> ZERO (new_DAG 0) = Value 1 (VNum 0)"
  using newNum_allocates [of "new_DAG 0" 0 0]
  by (simp add: new_DAG_def)

text \<open>
  C7. \<open>newBool(true)\<close> is the graph's \<open>TRUE\<close> and \<open>newBool(false)\<close> its \<open>FALSE\<close>
  on every call (it does not change the graph). Interning units whose numerator and
  denominator name-sets are equal, listed in any order, returns the \<open>Units\<close> instance
  of the first call and leaves the graph as that call left it; so for
  \<open>(["a","b","c"], ["c","d"])\<close> followed by \<open>(["c","a","b"], ["d","c"])\<close>.
\<close>

theorem singleton_identity:
  "newBool True g = TRUE g \<and> newBool False g = FALSE g \<and>
   (distinct n1 \<and> distinct n2 \<and> set n1 = set n2 \<and>
    distinct d1 \<and> distinct d2 \<and> set d1 = set d2 \<longrightarrow>
      newUnits n2 d2 (snd (newUnits n1 d1 g)) = (fst (newUnits n1 d1 g), snd (newUnits n1 d1 g))) \<and>
   newUnits [''c'', ''a'', ''b''] [''d'', ''c''] (snd (newUnits [''a'', ''b'', ''c''] [''c'', ''d''] g)) =
     (fst (newUnits [''a'', ''b'', ''c''] [''c'', ''d''] g), snd (newUnits [''a'', ''b'', ''c''] [''c'', ''d''] g))"
proof (intro conjI impI)
  show "newBool True g = TRUE g" by (simp add: newBool_def)
  show "newBool False g = FALSE g" by (simp add: newBool_def)
next
  assume h: "distinct n1 \<and> distinct n2 \<and> set n1 = set n2 \<and>
    distinct d1 \<and> distinct d2 \<and> set d1 = set d2"
  then have "mset n2 = mset n1" "mset d2 = mset d1"
    by (metis set_eq_iff_mset_eq_distinct)+
  then have "units_key n2 d2 = units_key n1 d1" by (rule units_key_permutation)
  then show "newUnits n2 d2 (snd (newUnits n1 d1 g)) = (fst (newUnits n1 d1 g), snd (newUnits n1 d1 g))"
    by (simp add: newUnits_same_key)
next
  have "mset [''c'', ''a'', ''b''] = mset [''a'', ''b'', ''c'']" "mset [''d'', ''c''] = mset [''c'', ''d'']"
    by (simp_all add: add_mset_commute)
  then have "units_key [''c'', ''a'', ''b''] [''d'', ''c''] = units_key [''a'', ''b'', ''c''] [''c'', ''d'']"
    by (rule units_key_permutation)
  then show "newUnits [''c'', ''a'', ''b''] [''d'', ''c''] (snd (newUnits [''a'', ''b'', ''c''] [''c'', ''d''] g)) =
     (fst (newUnits [''a'', ''b'', ''c''] [''c'', ''d''] g), snd (newUnits [''a'', ''b'', ''c''] [''c'', ''d''] g))"
    by (simp add: newUnits_same_key)
qed

theorem singleton_identity_witness:
  "distinct [''m'', ''kg''] \<and> distinct [''kg'', ''m''] \<and> set [''m'', ''kg''] = set [''kg'', ''m''] \<and>
   distinct [''s''] \<and> set [''s''] = set [''s''] \<and>
   newBool True (new_DAG 0) = Value 3 (VBool True) \<and>
   newUnits [''kg'', ''m''] [''s''] (snd (newUnits [''m'', ''kg''] [''s''] (new_DAG 0))) =
     (fst (newUnits [''m'', ''kg''] [''s''] (new_DAG 0)), snd (newUnits [''m'', ''kg''] [''s''] (new_DAG 0)))"
  using singleton_identity [where g = "new_DAG 0" and ?n1.0 = "[''m'', ''kg'']" and ?n2.0 = "[''kg'', ''m'']"
      and ?d1.0 = "[''s'']" and ?d2.0 = "[''s'']"]
  by (auto simp: new_DAG_def)




section \<open>Properties of the resolver\<close>

text \<open>
  C4. For every operator table and chain: \<open>parse(rbp)\<close> throws when no token is left
  and otherwise seeds \<open>left\<close> by \<open>nud\<close> of that one token and continues with the loop.
  The loop returns \<open>left\<close> with the cursor where it is when no token is left or the next
  operator's binding power does not strictly exceed \<open>rbp\<close>; it consumes the next operator
  by \<open>led\<close>, folds the result into \<open>left\<close> and goes on whenever that binding power
  strictly exceeds \<open>rbp\<close>; and it throws when the next token has no binding power. For a
  left-associative operator \<open>led\<close> builds the binary call \<open>op(left, parse(bp))\<close>.
  Consequently a chain \<open>t\<^sub>0 op\<^sub>1 t\<^sub>1 ... op\<^sub>n t\<^sub>n\<close> whose operators are all left-associative
  with one positive binding power resolves to the left-leaning nesting, and with the table
  above \<open>1 + 2 + 3\<close> resolves to \<open>+(+(1, 2), 3)\<close>, \<open>1 + 2 * 3\<close> to
  \<open>+(1, *(2, 3))\<close> and \<open>1 * 2 + 3\<close> to \<open>+(*(1, 2), 3)\<close>.
\<close>

theorem resolver_left_associative:
  "(i < length ch \<longrightarrow>
      parse ops ch rbp i c =
        (case nud ops ch i (i + 1) c of
           Inl e \<Rightarrow> Inl e
         | Inr (left, i', c') \<Rightarrow> parse_loop ops ch rbp left i' c')) \<and>
   (j < length ch \<and> bpof ops ch j = Inr b \<and> \<not> rbp' < b \<longrightarrow>
      parse_loop ops ch rbp' left j c = Inr (left, j, c)) \<and>
   (index < length ch \<and> ch ! index = Op s \<and> ops s = Some opi \<and> assoc opi = LEFT \<longrightarrow>
      led ops ch index left i c =
        (case parse ops ch (bp opi) i c of
           Inl e \<Rightarrow> Inl e
         | Inr (a, i', c') \<Rightarrow> Inr (FuncCall c' (op opi) [left, a], i', c' + 1))) \<and>
   ((\<forall>(s, t) \<in> set ots. \<exists>opi. ops s = Some opi \<and> assoc opi = LEFT \<and> bp opi = p) \<and> 0 < p \<longrightarrow>
      ensureExpr ops (OpExpr (Term t0 # chain_tail ots)) c = Inr (left_nest ops t0 c ots)) \<and>
   ensureExpr table (OpExpr [Term t1, Op ''+'', Term t2, Op ''+'', Term t3]) c =
     Inr (FuncCall (c + 1) ''+'' [FuncCall c ''+'' [t1, t2], t3], c + 2) \<and>
   (n < length ch \<and> bpof ops ch n = Inr q \<and> r < q \<longrightarrow>
      parse_loop ops ch r left n c =
        (case led ops ch n left (n + 1) c of
           Inl e \<Rightarrow> Inl e
         | Inr (left', i', c') \<Rightarrow> parse_loop ops ch r left' i' c')) \<and>
   (n < length ch \<and> bpof ops ch n = Inl err \<longrightarrow> parse_loop ops ch r left n c = Inl err) \<and>
   (\<not> n < length ch \<longrightarrow>
      parse_loop ops ch r left n c = Inr (left, n, c) \<and>
      parse ops ch r n c = Inl (Error ''No more tokens'')) \<and>
   ensureExpr table (OpExpr [Term t1, Op ''+'', Term t2, Op ''*'', Term t3]) c =
     Inr (FuncCall (c + 1) ''+'' [t1, FuncCall c ''*'' [t2, t3]], c + 2) \<and>
   ensureExpr table (OpExpr [Term t1, Op ''*'', Term t2, Op ''+'', Term t3]) c =
     Inr (FuncCall (c + 1) ''+'' [FuncCall c ''*'' [t1, t2], t3], c + 2)"
proof (intro conjI impI)
  assume "i < length ch"
  then show "parse ops ch rbp i c =
        (case nud ops ch i (i + 1) c of
           Inl e \<Rightarrow> Inl e
         | Inr (left, i', c') \<Rightarrow> parse_loop ops ch rbp left i' c')"
    by (subst parse.simps) simp
next
  assume "j < length ch \<and> bpof ops ch j = Inr b \<and> \<not> rbp' < b"
  then show "parse_loop ops ch rbp' left j c = Inr (left, j, c)"
    by (subst parse_loop.simps) simp
next
  assume "index < length ch \<and> ch ! index = Op s \<and> ops s = Some opi \<and> assoc opi = LEFT"
  then show "led ops ch index left i c =
        (case parse ops ch (bp opi) i c of
           Inl e \<Rightarrow> Inl e
         | Inr (a, i', c') \<Rightarrow> Inr (FuncCall c' (op opi) [left, a], i', c' + 1))"
    by (subst led.simps) (simp add: getOp_def)
next
  assume "(\<forall>(s, t) \<in> set ots. \<exists>opi. ops s = Some opi \<and> assoc opi = LEFT \<and> bp opi = p) \<and> 0 < p"
  then show "ensureExpr ops (OpExpr (Term t0 # chain_tail ots)) c = Inr (left_nest ops t0 c ots)"
    using left_chain [of ots ops p t0 c] by blast
next
  show "ensureExpr table (OpExpr [Term t1, Op ''+'', Term t2, Op ''+'', Term t3]) c =
     Inr (FuncCall (c + 1) ''+'' [FuncCall c ''+'' [t1, t2], t3], c + 2)"
    by (rule one_plus_two_plus_three)
next
  assume "n < length ch \<and> bpof ops ch n = Inr q \<and> r < q"
  then show "parse_loop ops ch r left n c =
        (case led ops ch n left (n + 1) c of
           Inl e \<Rightarrow> Inl e
         | Inr (left', i', c') \<Rightarrow> parse_loop ops ch r left' i' c')"
    by (subst parse_loop.simps) simp
next
  assume "n < length ch \<and> bpof ops ch n = Inl err"
  then show "parse_loop ops ch r left n c = Inl err"
    by (subst parse_loop.simps) simp
next
  assume "\<not> n < length ch"
  then show "parse_loop ops ch r left n c = Inr (left, n, c)"
    by (subst parse_loop.simps) simp
next
  assume "\<not> n < length ch"
  then show "parse ops ch r n c = Inl (Error ''No more tokens'')"
    by (subst parse.simps) simp
next
  show "ensureExpr table (OpExpr [Term t1, Op ''+'', Term t2, Op ''*'', Term t3]) c =
     Inr (FuncCall (c + 1) ''+'' [t1, FuncCall c ''*'' [t2, t3]], c + 2)"
    by (rule one_plus_two_times_three)
next
  show "ensureExpr table (OpExpr [Term t1, Op ''*'', Term t2, Op ''+'', Term t3]) c =
     Inr (FuncCall (c + 1) ''+'' [FuncCall c ''*'' [t1, t2], t3], c + 2)"
    by (rule one_times_two_plus_three)
qed

text \<open>The witness is \<open>1 + 2 * 3\<close>: at the \<open>+\<close> the outer loop (threshold \<open>0\<close>) and,
  at the \<open>*\<close>, the loop of the \<open>parse(10)\<close> that \<open>led\<close> runs for the \<open>+\<close> both
  consume; at the \<open>+\<close> a loop with threshold \<open>10\<close> stops.\<close>

theorem resolver_left_associative_witness:
  "bpof table [Term (Value 5 (VNum 1)), Op ''+'', Term (Value 6 (VNum 2)), Op ''*'', Term (Value 7 (VNum 3))] 1
     = Inr 10 \<and>
   parse_loop table [Term (Value 5 (VNum 1)), Op ''+'', Term (Value 6 (VNum 2)), Op ''*'', Term (Value 7 (VNum 3))]
     10 (Value 5 (VNum 1)) 1 8 = Inr (Value 5 (VNum 1), 1, 8) \<and>
   bpof table [Term (Value 5 (VNum 1)), Op ''+'', Term (Value 6 (VNum 2)), Op ''*'', Term (Value 7 (VNum 3))] 3
     = Inr 30 \<and>
   parse_loop table [Term (Value 5 (VNum 1)), Op ''+'', Term (Value 6 (VNum 2)), Op ''*'', Term (Value 7 (VNum 3))]
     10 (Value 6 (VNum 2)) 3 8 =
       Inr (FuncCall 8 ''*'' [Value 6 (VNum 2), Value 7 (VNum 3)], 5, 9) \<and>
   table ''+'' = Some \<lparr> op = ''+'', bp = 10, assoc = LEFT, prefixBP = 100 \<rparr> \<and>
   ensureExpr table
      (OpExpr [Term (Value 5 (VNum 1)), Op ''+'', Term (Value 6 (VNum 2)), Op ''*'', Term (Value 7 (VNum 3))]) 8 =
     Inr (FuncCall 9 ''+'' [Value 5 (VNum 1), FuncCall 8 ''*'' [Value 6 (VNum 2), Value 7 (VNum 3)]], 10) \<and>
   ensureExpr table
      (OpExpr (Term (Value 5 (VNum 1)) # chain_tail [(''+'', Value 6 (VNum 2)), (''+'', Value 7 (VNum 3))])) 8 =
     Inr (FuncCall 9 ''+'' [FuncCall 8 ''+'' [Value 5 (VNum 1), Value 6 (VNum 2)], Value 7 (VNum 3)], 10)"
proof -
  let ?ch = "[Term (Value 5 (VNum 1)), Op ''+'', Term (Value 6 (VNum 2)), Op ''*'', Term (Value 7 (VNum 3))]"
  let ?ots = "[(''+'', Value 6 (VNum 2)), (''+'', Value 7 (VNum 3))]"
  have b1: "bpof table ?ch 1 = Inr 10" by (simp add: bpof_def getOp_def table_lookup)
  have b3: "bpof table ?ch 3 = Inr 30" by (simp add: bpof_def getOp_def table_lookup)
  have e: "table ''+'' = Some \<lparr> op = ''+'', bp = 10, assoc = LEFT, prefixBP = 100 \<rparr>"
    by (simp add: table_lookup LEFT_def)
  have h: "\<forall>(s, t) \<in> set ?ots. \<exists>opi. table s = Some opi \<and> assoc opi = LEFT \<and> bp opi = 10"
    by (simp add: table_lookup LEFT_def)
  note stops = resolver_left_associative [THEN conjunct2, THEN conjunct1, rule_format]
  note chains = resolver_left_associative [THEN conjunct2, THEN conjunct2, THEN conjunct2,
      THEN conjunct1, rule_format]
  note consumes = resolver_left_associative [THEN conjunct2, THEN conjunct2, THEN conjunct2,
      THEN conjunct2, THEN conjunct2, THEN conjunct1, rule_format]
  note mixes = resolver_left_associative [THEN conjunct2, THEN conjunct2, THEN conjunct2,
      THEN conjunct2, THEN conjunct2, THEN conjunct2, THEN conjunct2, THEN conjunct2,
      THEN conjunct1]
  have stop: "parse_loop table ?ch 10 (Value 5 (VNum 1)) 1 8 = Inr (Value 5 (VNum 1), 1, 8)"
    by (rule stops [where b = 10]) (use b1 in simp)
  have "parse_loop table ?ch 10 (Value 6 (VNum 2)) 3 8 =
      (case led table ?ch 3 (Value 6 (VNum 2)) (3 + 1) 8 of
         Inl e \<Rightarrow> Inl e
       | Inr (left', i', c') \<Rightarrow> parse_loop table ?ch 10 left' i' c')"
    by (rule consumes [where q = 30]) (simp add: b3)
  then have consume: "parse_loop table ?ch 10 (Value 6 (VNum 2)) 3 8 =
      Inr (FuncCall 8 ''*'' [Value 6 (VNum 2), Value 7 (VNum 3)], 5, 9)"
    by (simp add: resolver_simps)
  have "ensureExpr table (OpExpr ?ch) 8 =
     Inr (FuncCall (8 + 1) ''+'' [Value 5 (VNum 1), FuncCall 8 ''*'' [Value 6 (VNum 2), Value 7 (VNum 3)]], 8 + 2)"
    by (rule mixes)
  then have mixed: "ensureExpr table (OpExpr ?ch) 8 =
     Inr (FuncCall 9 ''+'' [Value 5 (VNum 1), FuncCall 8 ''*'' [Value 6 (VNum 2), Value 7 (VNum 3)]], 10)"
    by simp
  have "ensureExpr table (OpExpr (Term (Value 5 (VNum 1)) # chain_tail ?ots)) 8 =
      Inr (left_nest table (Value 5 (VNum 1)) 8 ?ots)"
    by (rule chains [where p = 10]) (use h in simp)
  then have chain: "ensureExpr table (OpExpr (Term (Value 5 (VNum 1)) # chain_tail ?ots)) 8 =
     Inr (FuncCall 9 ''+'' [FuncCall 8 ''+'' [Value 5 (VNum 1), Value 6 (VNum 2)], Value 7 (VNum 3)], 10)"
    by (simp add: table_lookup)
  from b1 stop b3 consume e mixed chain show ?thesis by blast
qed

text \<open>
  C5. An operator token in prefix position whose table entry has a prefix binding power
  yields, through \<open>nud\<close>, the unary call named for the operator with
  \<open>parse(prefixBP)\<close> as its one argument; so an operator with a prefix binding power
  followed by one term resolves to the unary call on that term, and with the table above
  \<open>- 3\<close> resolves to \<open>-(3)\<close>. An operator token in prefix position whose entry has no
  prefix binding power (\<open>prefixBP < 0\<close>) makes \<open>nud\<close>, and with it the resolution of
  any chain that opens with it, throw the not-a-prefix-operator error.
\<close>

theorem resolver_prefix_operator:
  "(index < length ch \<and> ch ! index = Op s \<and> ops s = Some opi \<and> \<not> prefixBP opi < 0 \<longrightarrow>
      nud ops ch index i c =
        (case parse ops ch (prefixBP opi) i c of
           Inl e \<Rightarrow> Inl e
         | Inr (a, i', c') \<Rightarrow> Inr (FuncCall c' (op opi) [a], i', c' + 1))) \<and>
   (ops s = Some opi \<and> \<not> prefixBP opi < 0 \<longrightarrow>
      ensureExpr ops (OpExpr [Op s, Term t]) c = Inr (FuncCall c (op opi) [t], c + 1)) \<and>
   ensureExpr table (OpExpr [Op ''-'', Term t]) c = Inr (FuncCall c ''-'' [t], c + 1) \<and>
   (index < length ch \<and> ch ! index = Op s' \<and> ops s' = Some opj \<and> prefixBP opj < 0 \<longrightarrow>
      nud ops ch index i c = Inl (Error ''([object Object]) is not be a prefix operator'')) \<and>
   (ops s' = Some opj \<and> prefixBP opj < 0 \<longrightarrow>
      ensureExpr ops (OpExpr (Op s' # rest)) c =
        Inl (Error ''([object Object]) is not be a prefix operator''))"
proof (intro conjI impI)
  assume "index < length ch \<and> ch ! index = Op s \<and> ops s = Some opi \<and> \<not> prefixBP opi < 0"
  then show "nud ops ch index i c =
        (case parse ops ch (prefixBP opi) i c of
           Inl e \<Rightarrow> Inl e
         | Inr (a, i', c') \<Rightarrow> Inr (FuncCall c' (op opi) [a], i', c' + 1))"
    by (subst nud.simps) (simp add: getOp_def)
next
  assume "ops s = Some opi \<and> \<not> prefixBP opi < 0"
  then show "ensureExpr ops (OpExpr [Op s, Term t]) c = Inr (FuncCall c (op opi) [t], c + 1)"
    using prefix_then_term [of ops s opi t c] by simp
next
  show "ensureExpr table (OpExpr [Op ''-'', Term t]) c = Inr (FuncCall c ''-'' [t], c + 1)"
    using prefix_then_term [where ops = table and s = "''-''", OF table_lookup(2), of t c] by simp
next
  assume "index < length ch \<and> ch ! index = Op s' \<and> ops s' = Some opj \<and> prefixBP opj < 0"
  then show "nud ops ch index i c = Inl (Error ''([object Object]) is not be a prefix operator'')"
    by (subst nud.simps) (simp add: getOp_def)
next
  assume "ops s' = Some opj \<and> prefixBP opj < 0"
  then show "ensureExpr ops (OpExpr (Op s' # rest)) c =
        Inl (Error ''([object Object]) is not be a prefix operator'')"
    using not_prefix_fails [of ops s' opj rest c] by simp
qed

theorem resolver_prefix_operator_witness:
  "table ''-'' = Some \<lparr> op = ''-'', bp = 10, assoc = - 1, prefixBP = 100 \<rparr> \<and>
   ensureExpr table (OpExpr [Op ''-'', Term (Value 5 (VNum 3))]) 6 =
     Inr (FuncCall 6 ''-'' [Value 5 (VNum 3)], 7) \<and>
   debugValue (FuncCall 6 ''-'' [Value 5 (VNum 3)]) = DFunc ''-'' [DValue (VNum 3)] \<and>
   table ''*'' = Some \<lparr> op = ''*'', bp = 30, assoc = - 1, prefixBP = - 1 \<rparr> \<and>
   nud table [Op ''*'', Term (Value 5 (VNum 3))] 0 1 6 =
     Inl (Error ''([object Object]) is not be a prefix operator'') \<and>
   ensureExpr table (OpExpr [Op ''*'', Term (Value 5 (VNum 3))]) 6 =
     Inl (Error ''([object Object]) is not be a prefix operator'')"
proof -
  have m: "table ''-'' = Some \<lparr> op = ''-'', bp = 10, assoc = - 1, prefixBP = 100 \<rparr>"
    by (rule table_lookup(2))
  have t: "table ''*'' = Some \<lparr> op = ''*'', bp = 30, assoc = - 1, prefixBP = - 1 \<rparr>"
    by (simp add: table_def setOP_def new_Operator_def LEFT_def)
  note w = resolver_prefix_operator [where ops = table and ch = "[Op ''*'', Term (Value 5 (VNum 3))]"
      and index = 0 and s = "''-''" and opi = "\<lparr> op = ''-'', bp = 10, assoc = - 1, prefixBP = 100 \<rparr>"
      and s' = "''*''" and opj = "\<lparr> op = ''*'', bp = 30, assoc = - 1, prefixBP = - 1 \<rparr>"
      and t = "Value 5 (VNum 3)" and c = 6 and i = 1 and rest = "[Term (Value 5 (VNum 3))]"]
  from w m have a: "ensureExpr table (OpExpr [Op ''-'', Term (Value 5 (VNum 3))]) 6 =
      Inr (FuncCall 6 ''-'' [Value 5 (VNum 3)], 6 + 1)"
    by (elim conjE)
  have lt: "(0::nat) < length [Op ''*'', Term (Value 5 (VNum 3))]" by simp
  have at: "[Op ''*'', Term (Value 5 (VNum 3))] ! 0 = Op ''*''" by simp
  have neg: "prefixBP \<lparr> op = ''*'', bp = 30, assoc = - 1, prefixBP = - 1 \<rparr> < 0" by simp
  from w lt at t neg have b: "nud table [Op ''*'', Term (Value 5 (VNum 3))] 0 1 6 =
      Inl (Error ''([object Object]) is not be a prefix operator'')"
    by (elim conjE) blast
  from w t neg have c: "ensureExpr table (OpExpr [Op ''*'', Term (Value 5 (VNum 3))]) 6 =
      Inl (Error ''([object Object]) is not be a prefix operator'')"
    by (elim conjE) blast
  from a have a': "ensureExpr table (OpExpr [Op ''-'', Term (Value 5 (VNum 3))]) 6 =
      Inr (FuncCall 6 ''-'' [Value 5 (VNum 3)], 7)"
    by simp
  have d: "debugValue (FuncCall 6 ''-'' [Value 5 (VNum 3)]) = DFunc ''-'' [DValue (VNum 3)]" by simp
  from m a' d t b c show ?thesis by blast
qed

end
